theory Spec2Isabelle
  imports Main
begin

section \<open>Python values\<close>

text \<open>
  The values that flow through \<^verbatim>\<open>mongo.py\<close>: the literals of an expression, lists and
  tuples (both are sequences for a \<^verbatim>\<open>match\<close> statement; a \<^verbatim>\<open>str\<close> is not), and
  dictionaries, kept as association lists in insertion order.
\<close>

datatype pv =
    PNone
  | PBool bool
  | PInt int
  | PStr string
  | PList "pv list"
  | PTuple "pv list"
  | PDict "(pv \<times> pv) list"

text \<open>
  The exceptions of the modelled code: \<^verbatim>\<open>TypeError\<close> (unhashable dictionary key),
  \<^verbatim>\<open>KeyError\<close> (subscript of a missing key) and the
  \<^verbatim>\<open>Exception("callback function must have 1 or 3 parameters")\<close> of \<^verbatim>\<open>_thread_change\<close>.
\<close>

datatype error = TypeError | KeyError string | InvalidCallback

text \<open>
  A list and a dictionary have no hash; a tuple hashes its items; every other value of
  \<^typ>\<open>pv\<close> is hashable.
\<close>

fun hashable :: "pv \<Rightarrow> bool" where
  "hashable (PList xs) = False"
| "hashable (PDict kvs) = False"
| "hashable (PTuple xs) = list_all hashable xs"
| "hashable v = True"

text \<open>Sequencing of a computation that may raise.\<close>

definition ebind :: "error + 'a \<Rightarrow> ('a \<Rightarrow> error + 'b) \<Rightarrow> error + 'b" where
  "ebind m f = (case m of Inl e \<Rightarrow> Inl e | Inr v \<Rightarrow> f v)"

text \<open>A list comprehension over calls that may raise: the first exception ends it.\<close>

fun collect :: "(error + 'a) list \<Rightarrow> error + 'a list" where
  "collect [] = Inr []"
| "collect (r # rs) =
     (case r of
        Inl e \<Rightarrow> Inl e
      | Inr v \<Rightarrow> (case collect rs of Inl e \<Rightarrow> Inl e | Inr vs \<Rightarrow> Inr (v # vs)))"

text \<open>The dictionary display \<^verbatim>\<open>{k: v}\<close>: building it hashes the key.\<close>

definition dict1 :: "pv \<Rightarrow> pv \<Rightarrow> error + pv" where
  "dict1 k v = (if hashable k then Inr (PDict [(k, v)]) else Inl TypeError)"

section \<open>The expression compiler \<^verbatim>\<open>parse\<close>\<close>

text \<open>
  The subject of a sequence pattern: the items of a list or a tuple; nothing else in
  \<^typ>\<open>pv\<close> is matched by a sequence pattern.
\<close>

definition seq_items :: "pv \<Rightarrow> pv list option" where
  "seq_items a = (case a of PList xs \<Rightarrow> Some xs | PTuple xs \<Rightarrow> Some xs | _ \<Rightarrow> None)"

text \<open>The pattern \<^verbatim>\<open>["not", e]\<close>.\<close>

definition match_not :: "pv \<Rightarrow> pv option" where
  "match_not a =
     (case seq_items a of
        Some [h, e] \<Rightarrow> if h = PStr ''not'' then Some e else None
      | _ \<Rightarrow> None)"

text \<open>The pattern \<^verbatim>\<open>[e1, op, e2]\<close> for a literal \<^verbatim>\<open>op\<close>.\<close>

definition match_binop :: "string \<Rightarrow> pv \<Rightarrow> (pv \<times> pv) option" where
  "match_binop opr a =
     (case seq_items a of
        Some [e1, m, e2] \<Rightarrow> if m = PStr opr then Some (e1, e2) else None
      | _ \<Rightarrow> None)"

text \<open>The pattern \<^verbatim>\<open>[c, *expr]\<close> for a literal \<^verbatim>\<open>c\<close>.\<close>

definition match_head :: "string \<Rightarrow> pv \<Rightarrow> pv list option" where
  "match_head c a =
     (case seq_items a of
        Some (h # expr) \<Rightarrow> if h = PStr c then Some expr else None
      | _ \<Rightarrow> None)"

lemma size_match_not: "match_not a = Some e \<Longrightarrow> size e < size a"
  by (cases a) (auto simp: match_not_def seq_items_def split: list.splits if_splits)

lemma size_match_binop: "match_binop opr a = Some (e1, e2) \<Longrightarrow> size e2 < size a"
  by (cases a) (auto simp: match_binop_def seq_items_def split: list.splits if_splits)

lemma size_list_member: "e \<in> set xs \<Longrightarrow> size e < Suc (size_list size xs)"
  by (induction xs) auto

lemma size_match_head: "match_head c a = Some expr \<Longrightarrow> e \<in> set expr \<Longrightarrow> size e < size a"
  by (cases a)
    (auto simp: match_head_def seq_items_def split: list.splits if_splits
      dest: size_list_member)

text \<open>
  \<^verbatim>\<open>parse\<close>, case by case in the order of the source. In a dictionary display the value
  is evaluated before the dictionary is built, so an exception of the inner \<^verbatim>\<open>parse\<close>
  comes before the hashing of the key.

  The function below recurses as deep as its argument is nested. The interpreter does
  not: each nested call takes a stack frame, and past its recursion limit the call raises
  \<^verbatim>\<open>RecursionError\<close>. That limit is not part of the model, so what is proved of \<open>parse\<close>
  describes the code one node at a time: what a call returns or raises, given what its
  nested calls return. Nothing below says that a call on deeply nested input returns.
\<close>

function parse :: "pv \<Rightarrow> error + pv" where
  "parse args =
    (case match_not args of
       Some e \<Rightarrow> ebind (parse e) (\<lambda>r. dict1 (PStr ''$not'') r)
     | None \<Rightarrow>
    (case match_binop ''=='' args of
       Some (e1, e2) \<Rightarrow> ebind (parse e2) (\<lambda>r. dict1 e1 r)
     | None \<Rightarrow>
    (case match_binop ''!='' args of
       Some (e1, e2) \<Rightarrow>
         ebind (parse e2) (\<lambda>r. ebind (dict1 (PStr ''$ne'') r) (\<lambda>d. dict1 e1 d))
     | None \<Rightarrow>
    (case match_binop ''<'' args of
       Some (e1, e2) \<Rightarrow>
         ebind (parse e2) (\<lambda>r. ebind (dict1 (PStr ''$lt'') r) (\<lambda>d. dict1 e1 d))
     | None \<Rightarrow>
    (case match_binop ''>'' args of
       Some (e1, e2) \<Rightarrow>
         ebind (parse e2) (\<lambda>r. ebind (dict1 (PStr ''$gt'') r) (\<lambda>d. dict1 e1 d))
     | None \<Rightarrow>
    (case match_binop ''<='' args of
       Some (e1, e2) \<Rightarrow>
         ebind (parse e2) (\<lambda>r. ebind (dict1 (PStr ''$lte'') r) (\<lambda>d. dict1 e1 d))
     | None \<Rightarrow>
    (case match_binop ''>='' args of
       Some (e1, e2) \<Rightarrow>
         ebind (parse e2) (\<lambda>r. ebind (dict1 (PStr ''$gte'') r) (\<lambda>d. dict1 e1 d))
     | None \<Rightarrow>
    (case match_binop ''in'' args of
       Some (e1, e2) \<Rightarrow>
         ebind (parse e2) (\<lambda>r. ebind (dict1 (PStr ''$in'') r) (\<lambda>d. dict1 e1 d))
     | None \<Rightarrow>
    (case match_binop ''not-in'' args of
       Some (e1, e2) \<Rightarrow>
         ebind (parse e2) (\<lambda>r. ebind (dict1 (PStr ''$nin'') r) (\<lambda>d. dict1 e1 d))
     | None \<Rightarrow>
    (case match_head ''and'' args of
       Some expr \<Rightarrow>
         ebind (collect (map parse expr)) (\<lambda>rs. dict1 (PStr ''$and'') (PList rs))
     | None \<Rightarrow>
    (case match_head ''nor'' args of
       Some expr \<Rightarrow>
         ebind (collect (map parse expr)) (\<lambda>rs. dict1 (PStr ''$nor'') (PList rs))
     | None \<Rightarrow>
    (case match_head ''or'' args of
       Some expr \<Rightarrow>
         ebind (collect (map parse expr)) (\<lambda>rs. dict1 (PStr ''$or'') (PList rs))
     | None \<Rightarrow> Inr args))))))))))))"
  by pat_completeness auto
termination
  by (relation "measure size")
    (auto dest: size_match_not size_match_binop size_match_head)

declare parse.simps [simp del]

text \<open>
  The grammar in the words of the specification: the eight comparison tokens, the query
  tag of each (equality has none), the three combinator tokens, and the filter documents
  the compiler is to produce for them.
\<close>

definition comparison_ops :: "string list" where
  "comparison_ops = [''=='', ''!='', ''<'', ''>'', ''<='', ''>='', ''in'', ''not-in'']"

definition op_tag :: "string \<Rightarrow> string option" where
  "op_tag = map_of [(''!='', ''$ne''), (''<'', ''$lt''), (''>'', ''$gt''), (''<='', ''$lte''),
     (''>='', ''$gte''), (''in'', ''$in''), (''not-in'', ''$nin'')]"

definition comparison_doc :: "pv \<Rightarrow> string \<Rightarrow> pv \<Rightarrow> pv" where
  "comparison_doc f opr cv =
     (case op_tag opr of
        None \<Rightarrow> PDict [(f, cv)]
      | Some t \<Rightarrow> PDict [(f, PDict [(PStr t, cv)])])"

definition combinators :: "string list" where
  "combinators = [''and'', ''or'', ''nor'']"

definition combinator_doc :: "string \<Rightarrow> pv list \<Rightarrow> pv" where
  "combinator_doc c rs = PDict [(PStr (CHR ''$'' # c), PList rs)]"

text \<open>An input that none of the twelve patterns of \<^verbatim>\<open>parse\<close> matches.\<close>

definition no_rule :: "pv \<Rightarrow> bool" where
  "no_rule a \<longleftrightarrow>
     match_not a = None \<and>
     list_all (\<lambda>opr. match_binop opr a = None) comparison_ops \<and>
     list_all (\<lambda>c. match_head c a = None) combinators"

section \<open>The change dispatcher \<^verbatim>\<open>_thread_change\<close>\<close>

type_synonym pydict = "(pv \<times> pv) list"

text \<open>\<^verbatim>\<open>d.get(k, default)\<close> and \<^verbatim>\<open>d[k]\<close> for a string key.\<close>

definition dict_get :: "pydict \<Rightarrow> string \<Rightarrow> pv \<Rightarrow> pv" where
  "dict_get d k dflt = (case map_of d (PStr k) of Some v \<Rightarrow> v | None \<Rightarrow> dflt)"

definition subscript :: "pydict \<Rightarrow> string \<Rightarrow> error + pv" where
  "subscript d k = (case map_of d (PStr k) of Some v \<Rightarrow> Inr v | None \<Rightarrow> Inl (KeyError k))"

text \<open>
  A call of the callback with its arguments. The callback is the caller's code: its
  declared parameter count is \<open>co_argcount\<close>, and \<open>run\<close> says for each call whether it
  returns (\<open>None\<close>) or raises.
\<close>

datatype call = Call1 pv | Call3 pv pv pv

record callback =
  co_argcount :: nat
  run :: "call \<Rightarrow> error option"

text \<open>
  What a run of the loop did: how many events it took from the stream, the calls of the
  callback in order, and the exception that ended it, if one did.
\<close>

record outcome =
  pulled :: nat
  invoked :: "call list"
  raised :: "error option"

text \<open>
  The body of \<^verbatim>\<open>case 3\<close>: the three arguments built from the raw event. The two
  \<^verbatim>\<open>get\<close> calls have a default; the three subscripts raise \<^verbatim>\<open>KeyError\<close>.
\<close>

definition normalize :: "pydict \<Rightarrow> error + call" where
  "normalize change =
     (let fullDocument = PList [dict_get change ''fullDocument'' (PDict [])] in
      ebind (subscript change ''documentKey'') (\<lambda>dk.
      ebind (subscript change ''operationType'') (\<lambda>ot.
      ebind (subscript change ''ns'') (\<lambda>ns.
        let changes = PDict [(PStr ''documentKey'', dk), (PStr ''operationType'', ot),
                             (PStr ''ns'', ns)];
            read_time = dict_get change ''clusterTime'' (PDict [])
        in Inr (Call3 fullDocument changes read_time)))))"

text \<open>One more event taken and one more call made, before what the rest of the loop did.\<close>

definition after :: "call \<Rightarrow> outcome \<Rightarrow> outcome" where
  "after c out = out\<lparr>pulled := Suc (pulled out), invoked := c # invoked out\<rparr>"

text \<open>
  The loop over the change stream, here the list of the events the stream yields before
  it is exhausted. The parameter count is looked at inside the loop, once per event.
\<close>

fun thread_change :: "pydict list \<Rightarrow> callback \<Rightarrow> outcome" where
  "thread_change [] on_snapshot = \<lparr>pulled = 0, invoked = [], raised = None\<rparr>"
| "thread_change (change # rest) on_snapshot =
     (if co_argcount on_snapshot = 1 then
        (case run on_snapshot (Call1 (PDict change)) of
           Some e \<Rightarrow> \<lparr>pulled = 1, invoked = [Call1 (PDict change)], raised = Some e\<rparr>
         | None \<Rightarrow> after (Call1 (PDict change)) (thread_change rest on_snapshot))
      else if co_argcount on_snapshot = 3 then
        (case normalize change of
           Inl e \<Rightarrow> \<lparr>pulled = 1, invoked = [], raised = Some e\<rparr>
         | Inr c \<Rightarrow>
             (case run on_snapshot c of
                Some e \<Rightarrow> \<lparr>pulled = 1, invoked = [c], raised = Some e\<rparr>
              | None \<Rightarrow> after c (thread_change rest on_snapshot)))
      else \<lparr>pulled = 1, invoked = [], raised = Some InvalidCallback\<rparr>)"

section \<open>Objects, handles and the driver\<close>

text \<open>
  Objects live in a store and are named by their address: the \<^verbatim>\<open>pipeline\<close> attribute
  of each \<^verbatim>\<open>MongoCollection\<close> object, and the contents of each dictionary object a caller
  passes in. The driver is outside the repository: the model records each call made to
  it, with the arguments as they are at the time of the call.
\<close>

type_synonym addr = nat

datatype driver_call =
    Aggregate "pv list"
  | ReplaceOne pv pv bool
  | UpdateOne pv pv bool

record world =
  pipeline_of :: "addr \<Rightarrow> pv list"
  dict_at :: "addr \<Rightarrow> pydict"
  driver_calls :: "driver_call list"

definition world0 :: world where
  "world0 = \<lparr>pipeline_of = (\<lambda>a. []), dict_at = (\<lambda>a. []), driver_calls = []\<rparr>"

text \<open>
  What a builder method returns: \<^verbatim>\<open>None\<close> or a \<^verbatim>\<open>MongoCollection\<close> handle. The methods
  keep their names, with a suffix for the class (\<open>_coll\<close>, \<open>_ref\<close>) where the bare name is
  taken, and \<open>_top\<close> for the copy of the module at the top of the repository.
\<close>

datatype ret = RNone | RHandle addr

subsection \<open>\<^verbatim>\<open>MongoCollection\<close> in \<^verbatim>\<open>src/src/mongo.py\<close>\<close>

definition reset :: "addr \<Rightarrow> world \<Rightarrow> world" where
  "reset self w = w\<lparr>pipeline_of := (pipeline_of w)(self := [])\<rparr>"

text \<open>
  \<^verbatim>\<open>aggregate\<close>: the driver's reply to a pipeline, the documents or an exception, is the
  parameter \<open>drv\<close>. An exception of the driver leaves the method before \<^verbatim>\<open>_reset\<close>.
\<close>

definition aggregate ::
  "(pv list \<Rightarrow> error + pv list) \<Rightarrow> addr \<Rightarrow> world \<Rightarrow> (error + pv list) \<times> world" where
  "aggregate drv self w =
     (let p = pipeline_of w self;
          w1 = w\<lparr>driver_calls := driver_calls w @ [Aggregate p]\<rparr>
      in case drv p of
           Inl e \<Rightarrow> (Inl e, w1)
         | Inr result \<Rightarrow> (Inr result, reset self w1))"

definition get_coll ::
  "(pv list \<Rightarrow> error + pv list) \<Rightarrow> addr \<Rightarrow> world \<Rightarrow> (error + pv list) \<times> world" where
  "get_coll drv self w = aggregate drv self w"

definition append_stage :: "addr \<Rightarrow> pv \<Rightarrow> world \<Rightarrow> world" where
  "append_stage self stage w = w\<lparr>pipeline_of := (pipeline_of w)(self := pipeline_of w self @ [stage])\<rparr>"

text \<open>
  \<^verbatim>\<open>where(*args)\<close>: one positional argument is the expression itself, any other number
  of them is the tuple of all.
\<close>

definition where_arg :: "pv list \<Rightarrow> pv" where
  "where_arg args = (if length args = 1 then hd args else PTuple args)"

definition where_coll :: "addr \<Rightarrow> pv list \<Rightarrow> world \<Rightarrow> (error + ret) \<times> world" where
  "where_coll self args w =
     (case parse (where_arg args) of
        Inl e \<Rightarrow> (Inl e, w)
      | Inr m \<Rightarrow> (Inr (RHandle self), append_stage self (PDict [(PStr ''$match'', m)]) w))"

definition order_by :: "addr \<Rightarrow> pv \<Rightarrow> pv \<Rightarrow> world \<Rightarrow> (error + ret) \<times> world" where
  "order_by self name order w =
     (case dict1 name order of
        Inl e \<Rightarrow> (Inl e, w)
      | Inr srt \<Rightarrow> (Inr (RHandle self), append_stage self (PDict [(PStr ''$sort'', srt)]) w))"

definition limit_coll :: "addr \<Rightarrow> pv \<Rightarrow> world \<Rightarrow> (error + ret) \<times> world" where
  "limit_coll self num w =
     (Inr (RHandle self), append_stage self (PDict [(PStr ''$limit'', num)]) w)"

subsection \<open>\<^verbatim>\<open>MongoCollection\<close> in \<^verbatim>\<open>src/mongo.py\<close>\<close>

text \<open>
  The copy of the module at the top of the repository differs in the builder:
  \<^verbatim>\<open>get\<close> runs the aggregation itself, and \<^verbatim>\<open>order_by\<close> and \<^verbatim>\<open>limit\<close> end without a
  \<^verbatim>\<open>return\<close>. Its \<^verbatim>\<open>parse\<close>, \<^verbatim>\<open>_thread_change\<close>, \<^verbatim>\<open>_reset\<close> and \<^verbatim>\<open>where\<close> are those above.
\<close>

definition get_top ::
  "(pv list \<Rightarrow> error + pv list) \<Rightarrow> addr \<Rightarrow> world \<Rightarrow> (error + pv list) \<times> world" where
  "get_top drv self w =
     (let p = pipeline_of w self;
          w1 = w\<lparr>driver_calls := driver_calls w @ [Aggregate p]\<rparr>
      in case drv p of
           Inl e \<Rightarrow> (Inl e, w1)
         | Inr result \<Rightarrow> (Inr result, reset self w1))"

definition order_by_top :: "addr \<Rightarrow> pv \<Rightarrow> pv \<Rightarrow> world \<Rightarrow> (error + ret) \<times> world" where
  "order_by_top self name order w =
     (case dict1 name order of
        Inl e \<Rightarrow> (Inl e, w)
      | Inr srt \<Rightarrow> (Inr RNone, append_stage self (PDict [(PStr ''$sort'', srt)]) w))"

definition limit_top :: "addr \<Rightarrow> pv \<Rightarrow> world \<Rightarrow> (error + ret) \<times> world" where
  "limit_top self num w =
     (Inr RNone, append_stage self (PDict [(PStr ''$limit'', num)]) w)"

text \<open>A run of \<^verbatim>\<open>where\<close> calls on one handle, each of which has to return.\<close>

fun where_calls :: "addr \<Rightarrow> pv list list \<Rightarrow> world \<Rightarrow> error + world" where
  "where_calls self [] w = Inr w"
| "where_calls self (args # rest) w =
     (case where_coll self args w of
        (Inl e, w') \<Rightarrow> Inl e
      | (Inr r, w') \<Rightarrow> where_calls self rest w')"

definition is_match_stage :: "pv \<Rightarrow> bool" where
  "is_match_stage s = (case s of PDict [(k, m)] \<Rightarrow> k = PStr ''$match'' | _ \<Rightarrow> False)"

subsection \<open>\<^verbatim>\<open>MongoReference\<close>\<close>

text \<open>\<^verbatim>\<open>_docId\<close>: the filter of every driver call of a reference.\<close>

definition docId_filter :: "pv \<Rightarrow> pv" where
  "docId_filter docId = PDict [(PStr ''_id'', docId)]"

text \<open>\<^verbatim>\<open>d.pop(k, None)\<close>, for its effect on the dictionary.\<close>

definition dict_pop :: "string \<Rightarrow> pydict \<Rightarrow> pydict" where
  "dict_pop k d = filter (\<lambda>kv. fst kv \<noteq> PStr k) d"

text \<open>
  \<^verbatim>\<open>_clean\<close> pops the key from the dictionary object it is given and returns that same
  object. (In \<^verbatim>\<open>src/mongo.py\<close> the three writers do the \<^verbatim>\<open>pop\<close> themselves.) The driver
  call is the last statement of each writer and its result is not used: whatever the
  driver does with it, the store and the record of calls are as modelled.
\<close>

definition clean :: "addr \<Rightarrow> world \<Rightarrow> addr \<times> world" where
  "clean data w = (data, w\<lparr>dict_at := (dict_at w)(data := dict_pop ''_id'' (dict_at w data))\<rparr>)"

definition set_ref :: "pv \<Rightarrow> addr \<Rightarrow> world \<Rightarrow> world" where
  "set_ref docId data w =
     (case clean data w of (d, w1) \<Rightarrow>
        w1\<lparr>driver_calls := driver_calls w1 @
              [ReplaceOne (docId_filter docId) (PDict (dict_at w1 d)) True]\<rparr>)"

definition update_ref :: "pv \<Rightarrow> addr \<Rightarrow> world \<Rightarrow> world" where
  "update_ref docId data w =
     (case clean data w of (d, w1) \<Rightarrow>
        w1\<lparr>driver_calls := driver_calls w1 @
              [UpdateOne (docId_filter docId) (PDict [(PStr ''$set'', PDict (dict_at w1 d))]) True]\<rparr>)"

definition push_ref :: "pv \<Rightarrow> addr \<Rightarrow> world \<Rightarrow> world" where
  "push_ref docId data w =
     (case clean data w of (d, w1) \<Rightarrow>
        w1\<lparr>driver_calls := driver_calls w1 @
              [UpdateOne (docId_filter docId) (PDict [(PStr ''$push'', PDict (dict_at w1 d))]) True]\<rparr>)"

section \<open>Example inputs\<close>

text \<open>
  Two callbacks that return, of two and of three parameters; an insert event with all
  fields and an update event without \<^verbatim>\<open>fullDocument\<close> and \<^verbatim>\<open>clusterTime\<close>; a driver that
  replies with the pipeline it is given; and a store in which the dictionary at address
  5 carries an \<^verbatim>\<open>_id\<close> of its own.
\<close>

definition cb2 :: callback where
  "cb2 = \<lparr>co_argcount = 2, run = (\<lambda>c. None)\<rparr>"

definition cb3 :: callback where
  "cb3 = \<lparr>co_argcount = 3, run = (\<lambda>c. None)\<rparr>"

definition insert_event :: pydict where
  "insert_event =
     [(PStr ''operationType'', PStr ''insert''),
      (PStr ''ns'', PDict [(PStr ''db'', PStr ''test''), (PStr ''coll'', PStr ''users'')]),
      (PStr ''documentKey'', PDict [(PStr ''_id'', PInt 7)]),
      (PStr ''fullDocument'', PDict [(PStr ''_id'', PInt 7), (PStr ''age'', PInt 18)]),
      (PStr ''clusterTime'', PInt 1700000000)]"

definition update_event :: pydict where
  "update_event =
     [(PStr ''operationType'', PStr ''update''),
      (PStr ''ns'', PDict [(PStr ''db'', PStr ''test''), (PStr ''coll'', PStr ''users'')]),
      (PStr ''documentKey'', PDict [(PStr ''_id'', PInt 7)]),
      (PStr ''updateDescription'', PDict [(PStr ''removedFields'', PList [])])]"

definition echo_driver :: "pv list \<Rightarrow> error + pv list" where
  "echo_driver p = Inr p"

definition world1 :: world where
  "world1 = world0\<lparr>dict_at := (dict_at world0)
     (5 := [(PStr ''_id'', PInt 99), (PStr ''age'', PInt 18)])\<rparr>"

section \<open>Properties of the expression compiler\<close>

subsection \<open>One equation for each shape of input\<close>

lemma ebind_Inr [simp]: "ebind (Inr v) f = f v"
  by (simp add: ebind_def)

lemma ebind_Inl [simp]: "ebind (Inl e) f = Inl e"
  by (simp add: ebind_def)

lemma dict1_fun: "dict1 k = (\<lambda>v. if hashable k then Inr (PDict [(k, v)]) else Inl TypeError)"
  by (rule ext) (simp add: dict1_def)

lemma dict1_PStr [simp]: "dict1 (PStr s) v = Inr (PDict [(PStr s, v)])"
  by (simp add: dict1_def)

lemma match_binop_other:
  "match_binop opr a = Some p \<Longrightarrow> match_binop opr' a = (if opr' = opr then Some p else None)"
  by (auto simp: match_binop_def split: option.splits list.splits if_splits)

lemma match_binop_not: "match_binop opr a = Some p \<Longrightarrow> match_not a = None"
  by (auto simp: match_binop_def match_not_def split: option.splits list.splits if_splits)

lemma match_head_other:
  "match_head c a = Some expr \<Longrightarrow> match_head c' a = (if c' = c then Some expr else None)"
  by (auto simp: match_head_def split: option.splits list.splits if_splits)

lemma parse_not:
  assumes m: "match_not a = Some e"
  shows "parse a = ebind (parse e) (\<lambda>r. Inr (PDict [(PStr ''$not'', r)]))"
  by (subst parse.simps) (simp add: m dict1_fun)

lemma parse_binop:
  assumes "opr \<in> set comparison_ops" and m: "match_binop opr a = Some (e1, e2)"
  shows "parse a =
    ebind (parse e2) (\<lambda>r. if hashable e1 then Inr (comparison_doc e1 opr r) else Inl TypeError)"
proof -
  have step: "parse a =
    (if opr = ''=='' then ebind (parse e2) (\<lambda>r. dict1 e1 r)
     else ebind (parse e2) (\<lambda>r. ebind (dict1 (PStr (the (op_tag opr))) r) (\<lambda>d. dict1 e1 d)))"
    using assms(1)
    apply (subst parse.simps)
    apply (simp add: match_binop_other [OF m] match_binop_not [OF m] comparison_ops_def
        del: ebind_Inr ebind_Inl dict1_PStr)
    apply (auto simp: op_tag_def)
    done
  have "op_tag opr = None \<longleftrightarrow> opr = ''==''"
    using assms(1) by (auto simp: comparison_ops_def op_tag_def)
  then show ?thesis
    unfolding step
    by (auto simp: comparison_doc_def dict1_fun dict1_def cong: if_cong)
qed

lemma parse_head:
  assumes c: "c \<in> set combinators" and m: "match_head c a = Some expr"
    and n: "match_not a = None"
    and b: "list_all (\<lambda>opr. match_binop opr a = None) comparison_ops"
  shows "parse a = ebind (collect (map parse expr)) (\<lambda>rs. Inr (combinator_doc c rs))"
  using c b
  apply (subst parse.simps)
  apply (simp add: n match_head_other [OF m] comparison_ops_def combinators_def combinator_doc_def)
  apply auto
  done

lemma parse_no_rule: "no_rule a \<Longrightarrow> parse a = Inr a"
  by (subst parse.simps) (simp add: no_rule_def comparison_ops_def combinators_def)

lemma shape_cases:
  obtains (neg) e where "match_not a = Some e"
  | (cmp) opr e1 e2 where "opr \<in> set comparison_ops" "match_binop opr a = Some (e1, e2)"
  | (comb) c expr where "c \<in> set combinators" "match_head c a = Some expr"
      "match_not a = None" "list_all (\<lambda>opr. match_binop opr a = None) comparison_ops"
  | (other) "no_rule a"
proof (cases "match_not a")
  case (Some e)
  then show ?thesis by (rule neg)
next
  case None
  show ?thesis
  proof (cases "list_all (\<lambda>opr. match_binop opr a = None) comparison_ops")
    case False
    then obtain opr where "opr \<in> set comparison_ops" "match_binop opr a \<noteq> None"
      by (auto simp: list_all_iff)
    then show ?thesis using cmp by (cases "match_binop opr a") auto
  next
    case True
    show ?thesis
    proof (cases "list_all (\<lambda>c. match_head c a = None) combinators")
      case False
      then obtain c where "c \<in> set combinators" "match_head c a \<noteq> None"
        by (auto simp: list_all_iff)
      then show ?thesis using comb None True by (cases "match_head c a") auto
    next
      case True2: True
      show ?thesis using other None True True2 by (simp add: no_rule_def)
    qed
  qed
qed

lemma match_binop_list [simp]:
  "match_binop opr (PList [f, PStr opr', v]) = (if opr' = opr then Some (f, v) else None)"
  "match_binop opr (PTuple [f, PStr opr', v]) = (if opr' = opr then Some (f, v) else None)"
  by (simp_all add: match_binop_def seq_items_def)

lemma parse_literal [simp]:
  "parse PNone = Inr PNone" "parse (PBool b) = Inr (PBool b)" "parse (PInt i) = Inr (PInt i)"
  "parse (PStr s) = Inr (PStr s)" "parse (PDict kvs) = Inr (PDict kvs)"
  "parse (PList []) = Inr (PList [])" "parse (PTuple []) = Inr (PTuple [])"
  by (simp_all add: parse_no_rule no_rule_def match_not_def match_binop_def match_head_def
      seq_items_def comparison_ops_def combinators_def)

subsection \<open>Comparisons\<close>

text \<open>
  C1. For every comparison \<^verbatim>\<open>[f, op, v]\<close> with \<^verbatim>\<open>op\<close> one of the eight comparison tokens,
  \<^verbatim>\<open>parse\<close> returns \<^verbatim>\<open>{f: {opTag: parse(v)}}\<close> with the query tag of the operator, and for
  \<^verbatim>\<open>==\<close> it returns \<^verbatim>\<open>{f: parse(v)}\<close> with no wrapper. The field \<^verbatim>\<open>f\<close> is a dictionary key,
  hence hashable, as every field name is; \<^verbatim>\<open>parse(v)\<close> is the value the inner call
  returns. The same holds when the comparison is a tuple, as \<^verbatim>\<open>where\<close> passes it.
\<close>

theorem parse_comparison:
  assumes "opr \<in> set comparison_ops" and "hashable f" and "parse v = Inr cv"
  shows "parse (PList [f, PStr opr, v]) = Inr (comparison_doc f opr cv)
       \<and> parse (PTuple [f, PStr opr, v]) = Inr (comparison_doc f opr cv)"
  using assms
    parse_binop [of opr "PList [f, PStr opr, v]" f v]
    parse_binop [of opr "PTuple [f, PStr opr, v]" f v]
  by simp

theorem parse_comparison_witness:
  "parse (PList [PStr ''age'', PStr ''>='', PInt 18])
     = Inr (PDict [(PStr ''age'', PDict [(PStr ''$gte'', PInt 18)])])
   \<and> parse (PTuple [PStr ''age'', PStr ''=='', PInt 18]) = Inr (PDict [(PStr ''age'', PInt 18)])"
proof -
  have ge: "''>='' \<in> set comparison_ops" and eq: "''=='' \<in> set comparison_ops"
    by (simp_all add: comparison_ops_def)
  have h: "hashable (PStr ''age'')" by simp
  have p: "parse (PInt 18) = Inr (PInt 18)" by simp
  show ?thesis
    using parse_comparison [OF ge h p] parse_comparison [OF eq h p]
    by (simp add: comparison_doc_def op_tag_def)
qed

subsection \<open>Combinators\<close>

lemma match_not_cons [simp]:
  "match_not (PList (PStr c # E)) = (if c = ''not'' \<and> length E = 1 then Some (hd E) else None)"
  "match_not (PTuple (PStr c # E)) = (if c = ''not'' \<and> length E = 1 then Some (hd E) else None)"
  by (auto simp: match_not_def seq_items_def split: list.splits)

lemma match_head_cons [simp]:
  "match_head c (PList (h # E)) = (if h = PStr c then Some E else None)"
  "match_head c (PTuple (h # E)) = (if h = PStr c then Some E else None)"
  by (simp_all add: match_head_def seq_items_def)

lemma match_binop_cons:
  "match_binop opr (PList (h # E)) =
     (if length E = 2 \<and> hd E = PStr opr then Some (h, E ! 1) else None)"
  "match_binop opr (PTuple (h # E)) =
     (if length E = 2 \<and> hd E = PStr opr then Some (h, E ! 1) else None)"
  by (auto simp: match_binop_def seq_items_def split: list.splits)

text \<open>
  C2, as stated, fails: the comparison patterns come before the combinator patterns, so
  the three-element list \<^verbatim>\<open>["and", "==", 5]\<close> is read as the comparison of the field
  \<^verbatim>\<open>"and"\<close> with \<^verbatim>\<open>5\<close>, not as the combinator over \<^verbatim>\<open>["==", 5]\<close>.
\<close>

theorem parse_combinator_counterexample:
  "collect (map parse [PStr ''=='', PInt 5]) = Inr [PStr ''=='', PInt 5]
   \<and> parse (PList (PStr ''and'' # [PStr ''=='', PInt 5])) = Inr (PDict [(PStr ''and'', PInt 5)])
   \<and> parse (PList (PStr ''and'' # [PStr ''=='', PInt 5]))
       \<noteq> Inr (combinator_doc ''and'' [PStr ''=='', PInt 5])"
proof -
  have "parse (PList [PStr ''and'', PStr ''=='', PInt 5]) = Inr (PDict [(PStr ''and'', PInt 5)])"
    using parse_binop [of "''==''" "PList [PStr ''and'', PStr ''=='', PInt 5]" "PStr ''and''" "PInt 5"]
    by (simp add: comparison_ops_def comparison_doc_def op_tag_def)
  then show ?thesis by (simp add: combinator_doc_def)
qed

text \<open>
  C2, amended. For every combinator token \<^verbatim>\<open>c\<close> among \<^verbatim>\<open>and\<close>, \<^verbatim>\<open>or\<close>, \<^verbatim>\<open>nor\<close> and
  every list \<^verbatim>\<open>E\<close> of expressions, unless \<^verbatim>\<open>E\<close> has exactly two items and the first of
  them is a comparison token, \<^verbatim>\<open>parse([c, *E])\<close> returns
  \<^verbatim>\<open>{cTag: [parse(e) for e in E]}\<close>, the list being what the inner calls return.
\<close>

theorem parse_combinator:
  assumes "c \<in> set combinators"
    and "\<not> (length E = 2 \<and> hd E \<in> PStr ` set comparison_ops)"
    and "collect (map parse E) = Inr rs"
  shows "parse (PList (PStr c # E)) = Inr (combinator_doc c rs)
       \<and> parse (PTuple (PStr c # E)) = Inr (combinator_doc c rs)"
proof -
  have c: "c \<noteq> ''not''" using assms(1) by (auto simp: combinators_def)
  have b: "list_all (\<lambda>opr. match_binop opr (PList (PStr c # E)) = None) comparison_ops"
    "list_all (\<lambda>opr. match_binop opr (PTuple (PStr c # E)) = None) comparison_ops"
    using assms(2) by (auto simp: list_all_iff match_binop_cons)
  show ?thesis
    using parse_head [OF assms(1) _ _ b(1), of E] parse_head [OF assms(1) _ _ b(2), of E] c assms(3)
    by simp
qed

theorem parse_combinator_witness:
  "parse (PList [PStr ''and'', PList [PStr ''age'', PStr ''>'', PInt 18],
                 PList [PStr ''name'', PStr ''=='', PStr ''Bob'']])
   = Inr (PDict [(PStr ''$and'', PList [PDict [(PStr ''age'', PDict [(PStr ''$gt'', PInt 18)])],
                                        PDict [(PStr ''name'', PStr ''Bob'')]])])"
proof -
  let ?E = "[PList [PStr ''age'', PStr ''>'', PInt 18], PList [PStr ''name'', PStr ''=='', PStr ''Bob'']]"
  let ?rs = "[PDict [(PStr ''age'', PDict [(PStr ''$gt'', PInt 18)])], PDict [(PStr ''name'', PStr ''Bob'')]]"
  have c: "''and'' \<in> set combinators" by (simp add: combinators_def)
  have n: "\<not> (length ?E = 2 \<and> hd ?E \<in> PStr ` set comparison_ops)" by auto
  have p1: "parse (PList [PStr ''age'', PStr ''>'', PInt 18]) = Inr (PDict [(PStr ''age'', PDict [(PStr ''$gt'', PInt 18)])])"
    using parse_binop [of "''>''" "PList [PStr ''age'', PStr ''>'', PInt 18]" "PStr ''age''" "PInt 18"]
    by (simp add: comparison_ops_def comparison_doc_def op_tag_def)
  have p2: "parse (PList [PStr ''name'', PStr ''=='', PStr ''Bob'']) = Inr (PDict [(PStr ''name'', PStr ''Bob'')])"
    using parse_binop [of "''==''" "PList [PStr ''name'', PStr ''=='', PStr ''Bob'']" "PStr ''name''" "PStr ''Bob''"]
    by (simp add: comparison_ops_def comparison_doc_def op_tag_def)
  have r: "collect (map parse ?E) = Inr ?rs" by (simp add: p1 p2)
  show ?thesis
    using parse_combinator [OF c n r] by (simp add: combinator_doc_def)
qed

subsection \<open>Unmatched input and exceptions\<close>




subsection \<open>The value of a comparison\<close>

lemma comparison_doc_inject [simp]:
  "comparison_doc f opr cv = comparison_doc f opr v \<longleftrightarrow> cv = v"
  by (simp add: comparison_doc_def split: option.splits)

text \<open>
  C8, as stated, fails: the value of a comparison goes through \<^verbatim>\<open>parse\<close> like every
  other operand, so a value that has the shape of a comparison comes out compiled, not
  unchanged.
\<close>

theorem comparison_value_counterexample:
  "parse (PList [PStr ''a'', PStr ''=='', PList [PStr ''b'', PStr ''<'', PInt 1]])
     = Inr (PDict [(PStr ''a'', PDict [(PStr ''b'', PDict [(PStr ''$lt'', PInt 1)])])])
   \<and> parse (PList [PStr ''a'', PStr ''=='', PList [PStr ''b'', PStr ''<'', PInt 1]])
     \<noteq> Inr (PDict [(PStr ''a'', PList [PStr ''b'', PStr ''<'', PInt 1])])"
proof -
  have inner: "parse (PList [PStr ''b'', PStr ''<'', PInt 1])
      = Inr (PDict [(PStr ''b'', PDict [(PStr ''$lt'', PInt 1)])])"
    using parse_binop [of "''<''" "PList [PStr ''b'', PStr ''<'', PInt 1]" "PStr ''b''" "PInt 1"]
    by (simp add: comparison_ops_def comparison_doc_def op_tag_def)
  have "parse (PList [PStr ''a'', PStr ''=='', PList [PStr ''b'', PStr ''<'', PInt 1]])
      = Inr (PDict [(PStr ''a'', PDict [(PStr ''b'', PDict [(PStr ''$lt'', PInt 1)])])])"
    using parse_binop [of "''==''"
        "PList [PStr ''a'', PStr ''=='', PList [PStr ''b'', PStr ''<'', PInt 1]]"
        "PStr ''a''" "PList [PStr ''b'', PStr ''<'', PInt 1]"]
    by (simp add: inner comparison_ops_def comparison_doc_def op_tag_def)
  then show ?thesis by simp
qed

text \<open>
  C8, amended. For every comparison \<^verbatim>\<open>[f, op, v]\<close> with a hashable field, the value \<^verbatim>\<open>v\<close>
  is compiled recursively, as the operand of a \<^verbatim>\<open>not\<close> node and of a combinator is: the
  output holds \<^verbatim>\<open>parse(v)\<close>. So \<^verbatim>\<open>v\<close> is in the output unchanged exactly when
  \<^verbatim>\<open>parse(v)\<close> returns \<^verbatim>\<open>v\<close>, which it does when \<^verbatim>\<open>v\<close> matches none of the patterns.
\<close>

theorem comparison_value_compiled:
  assumes "opr \<in> set comparison_ops" and "hashable f"
  shows "(\<forall>cv. parse v = Inr cv \<longrightarrow> parse (PList [f, PStr opr, v]) = Inr (comparison_doc f opr cv))
       \<and> (parse (PList [f, PStr opr, v]) = Inr (comparison_doc f opr v) \<longleftrightarrow> parse v = Inr v)
       \<and> (no_rule v \<longrightarrow> parse (PList [f, PStr opr, v]) = Inr (comparison_doc f opr v))"
proof -
  have eq: "parse (PList [f, PStr opr, v]) = ebind (parse v) (\<lambda>r. Inr (comparison_doc f opr r))"
    using assms parse_binop [of opr "PList [f, PStr opr, v]" f v] by simp
  show ?thesis
    by (cases "parse v") (auto simp: eq parse_no_rule)
qed

theorem comparison_value_compiled_witness:
  "parse (PList [PStr ''tags'', PStr ''in'', PList [PStr ''x'', PStr ''y'']])
     = Inr (PDict [(PStr ''tags'', PDict [(PStr ''$in'', PList [PStr ''x'', PStr ''y''])])])
   \<and> no_rule (PList [PStr ''x'', PStr ''y''])"
proof -
  have o: "''in'' \<in> set comparison_ops" by (simp add: comparison_ops_def)
  have h: "hashable (PStr ''tags'')" by simp
  have n: "no_rule (PList [PStr ''x'', PStr ''y''])"
    by (simp add: no_rule_def match_not_def match_binop_def match_head_def seq_items_def
        comparison_ops_def combinators_def)
  show ?thesis
    using comparison_value_compiled [OF o h, of "PList [PStr ''x'', PStr ''y'']"] n
    by (simp add: comparison_doc_def op_tag_def)
qed

section \<open>Properties of the change dispatcher\<close>

text \<open>
  C4, as stated, fails: the parameter count is checked inside the loop, for each event.
  On a stream that yields no event the loop body never runs and nothing is raised; on a
  stream that yields one, the exception comes after that event has been taken.
\<close>

theorem thread_change_arity_counterexample:
  "thread_change [] cb2 = \<lparr>pulled = 0, invoked = [], raised = None\<rparr>
   \<and> thread_change [insert_event] cb2
       = \<lparr>pulled = 1, invoked = [], raised = Some InvalidCallback\<rparr>"
  by (simp add: cb2_def)

text \<open>
  C4, amended. When the callback's declared parameter count is neither 1 nor 3, the
  invalid-callback exception is raised when the first event has been taken from the
  stream, before any call of the callback and before a second event is taken; on a
  stream that yields no event nothing is raised.
\<close>

theorem thread_change_arity:
  assumes "co_argcount on_snapshot \<noteq> 1" and "co_argcount on_snapshot \<noteq> 3"
  shows "thread_change (change # rest) on_snapshot
           = \<lparr>pulled = 1, invoked = [], raised = Some InvalidCallback\<rparr>
       \<and> thread_change [] on_snapshot = \<lparr>pulled = 0, invoked = [], raised = None\<rparr>"
  using assms by simp

theorem thread_change_arity_witness:
  "thread_change [insert_event, update_event] cb2
     = \<lparr>pulled = 1, invoked = [], raised = Some InvalidCallback\<rparr>
   \<and> thread_change [] cb2 = \<lparr>pulled = 0, invoked = [], raised = None\<rparr>"
proof -
  have a: "co_argcount cb2 \<noteq> 1" and b: "co_argcount cb2 \<noteq> 3"
    by (simp_all add: cb2_def)
  show ?thesis
    using thread_change_arity [OF a b, of insert_event "[update_event]"] by simp
qed

text \<open>
  C5. For every raw change event (a dictionary with the keys \<^verbatim>\<open>documentKey\<close>,
  \<^verbatim>\<open>operationType\<close> and \<^verbatim>\<open>ns\<close>, as the data model has it), the three arguments built for
  a callback of three parameters are: a list of length one holding the event's
  \<^verbatim>\<open>fullDocument\<close> if it has one and an empty dictionary if not; a dictionary with
  exactly the three keys \<^verbatim>\<open>documentKey\<close>, \<^verbatim>\<open>operationType\<close> and \<^verbatim>\<open>ns\<close>, whatever else the
  event holds; and the event's \<^verbatim>\<open>clusterTime\<close> if it has one and an empty dictionary if
  not. These are the arguments of the one call the loop makes for the event.
\<close>

theorem normalize_event:
  assumes "map_of change (PStr ''documentKey'') = Some dk"
    and "map_of change (PStr ''operationType'') = Some ot"
    and "map_of change (PStr ''ns'') = Some ns"
    and "co_argcount on_snapshot = 3"
  shows "normalize change =
           Inr (Call3
             (PList [case map_of change (PStr ''fullDocument'') of Some d \<Rightarrow> d | None \<Rightarrow> PDict []])
             (PDict [(PStr ''documentKey'', dk), (PStr ''operationType'', ot), (PStr ''ns'', ns)])
             (case map_of change (PStr ''clusterTime'') of Some t \<Rightarrow> t | None \<Rightarrow> PDict []))
       \<and> invoked (thread_change [change] on_snapshot) =
              [Call3
                (PList [case map_of change (PStr ''fullDocument'') of Some d \<Rightarrow> d | None \<Rightarrow> PDict []])
                (PDict [(PStr ''documentKey'', dk), (PStr ''operationType'', ot), (PStr ''ns'', ns)])
                (case map_of change (PStr ''clusterTime'') of Some t \<Rightarrow> t | None \<Rightarrow> PDict [])]"
  using assms
  by (simp add: normalize_def subscript_def dict_get_def after_def split: option.splits)

theorem normalize_event_witness:
  "normalize insert_event =
     Inr (Call3 (PList [PDict [(PStr ''_id'', PInt 7), (PStr ''age'', PInt 18)]])
            (PDict [(PStr ''documentKey'', PDict [(PStr ''_id'', PInt 7)]),
                    (PStr ''operationType'', PStr ''insert''),
                    (PStr ''ns'', PDict [(PStr ''db'', PStr ''test''), (PStr ''coll'', PStr ''users'')])])
            (PInt 1700000000))
   \<and> normalize update_event =
     Inr (Call3 (PList [PDict []])
            (PDict [(PStr ''documentKey'', PDict [(PStr ''_id'', PInt 7)]),
                    (PStr ''operationType'', PStr ''update''),
                    (PStr ''ns'', PDict [(PStr ''db'', PStr ''test''), (PStr ''coll'', PStr ''users'')])])
            (PDict []))
   \<and> co_argcount cb3 = 3
   \<and> invoked (thread_change [update_event] cb3) =
     [Call3 (PList [PDict []])
        (PDict [(PStr ''documentKey'', PDict [(PStr ''_id'', PInt 7)]),
                (PStr ''operationType'', PStr ''update''),
                (PStr ''ns'', PDict [(PStr ''db'', PStr ''test''), (PStr ''coll'', PStr ''users'')])])
        (PDict [])]"
proof -
  have i: "map_of insert_event (PStr ''documentKey'') = Some (PDict [(PStr ''_id'', PInt 7)])"
    "map_of insert_event (PStr ''operationType'') = Some (PStr ''insert'')"
    "map_of insert_event (PStr ''ns'') = Some (PDict [(PStr ''db'', PStr ''test''), (PStr ''coll'', PStr ''users'')])"
    by (simp_all add: insert_event_def)
  have u: "map_of update_event (PStr ''documentKey'') = Some (PDict [(PStr ''_id'', PInt 7)])"
    "map_of update_event (PStr ''operationType'') = Some (PStr ''update'')"
    "map_of update_event (PStr ''ns'') = Some (PDict [(PStr ''db'', PStr ''test''), (PStr ''coll'', PStr ''users'')])"
    by (simp_all add: update_event_def)
  have f: "map_of insert_event (PStr ''fullDocument'') = Some (PDict [(PStr ''_id'', PInt 7), (PStr ''age'', PInt 18)])"
    "map_of insert_event (PStr ''clusterTime'') = Some (PInt 1700000000)"
    "map_of update_event (PStr ''fullDocument'') = None"
    "map_of update_event (PStr ''clusterTime'') = None"
    by (simp_all add: insert_event_def update_event_def)
  have a: "co_argcount cb3 = 3" by (simp add: cb3_def)
  show ?thesis
    using normalize_event [OF i a] normalize_event [OF u a]
    by (simp only: f a option.case simp_thms)
qed

text \<open>Outside the data model: an event without one of the three keys ends the loop.\<close>

lemma normalize_missing_key:
  "map_of change (PStr ''documentKey'') = None \<Longrightarrow>
     normalize change = Inl (KeyError ''documentKey'')"
  by (simp add: normalize_def subscript_def)

section \<open>Properties of the query builder\<close>

lemma is_match_stage_match [simp]: "is_match_stage (PDict [(PStr ''$match'', m)])"
  by (simp add: is_match_stage_def)

lemma where_calls_stages:
  "where_calls self argss w = Inr w' \<Longrightarrow>
     \<exists>stages. pipeline_of w' self = pipeline_of w self @ stages
       \<and> length stages = length argss \<and> list_all is_match_stage stages"
proof (induction argss arbitrary: w)
  case Nil
  then show ?case by simp
next
  case (Cons args rest)
  from Cons.prems obtain m where m: "parse (where_arg args) = Inr m"
    and rest: "where_calls self rest (append_stage self (PDict [(PStr ''$match'', m)]) w) = Inr w'"
    by (auto simp: where_coll_def split: sum.splits)
  from Cons.IH [OF rest] obtain stages where
    st: "pipeline_of w' self = pipeline_of w self @ PDict [(PStr ''$match'', m)] # stages"
      "length stages = length rest" "list_all is_match_stage stages"
    by (auto simp: append_stage_def)
  show ?case
    by (rule exI [of _ "PDict [(PStr ''$match'', m)] # stages"])
      (simp add: st)
qed

text \<open>
  C6. For every pipeline, an execution of \<^verbatim>\<open>aggregate\<close> (and of \<^verbatim>\<open>get\<close>, in both copies
  of the module), that is a call in which the driver replies, calls the driver's
  aggregation with exactly the accumulated pipeline, returns its reply and leaves the
  handle with an empty pipeline, so a second execution right after it calls the driver
  with the empty pipeline. Starting from an empty pipeline, after \<open>n\<close> calls of \<^verbatim>\<open>where\<close>
  that return, the pipeline holds exactly \<open>n\<close> stages, each a \<^verbatim>\<open>$match\<close> stage.
\<close>

theorem query_builder_execution:
  assumes "drv (pipeline_of w self) = Inr docs"
  shows "fst (aggregate drv self w) = Inr docs
   \<and> driver_calls (snd (aggregate drv self w)) = driver_calls w @ [Aggregate (pipeline_of w self)]
   \<and> pipeline_of (snd (aggregate drv self w)) self = []
   \<and> fst (aggregate drv self (snd (aggregate drv self w))) = drv []
   \<and> driver_calls (snd (aggregate drv self (snd (aggregate drv self w))))
       = driver_calls w @ [Aggregate (pipeline_of w self), Aggregate []]
   \<and> get_coll drv self w = aggregate drv self w
   \<and> get_top drv self w = aggregate drv self w
   \<and> (pipeline_of w self = [] \<longrightarrow> where_calls self argss w = Inr w' \<longrightarrow>
        length (pipeline_of w' self) = length argss
        \<and> list_all is_match_stage (pipeline_of w' self))"
proof -
  have "pipeline_of w self = [] \<longrightarrow> where_calls self argss w = Inr w' \<longrightarrow>
        length (pipeline_of w' self) = length argss
        \<and> list_all is_match_stage (pipeline_of w' self)"
    using where_calls_stages [of self argss w w'] by auto
  then show ?thesis
    using assms
    by (simp add: aggregate_def get_coll_def get_top_def reset_def Let_def split: sum.splits)
qed

theorem query_builder_execution_witness:
  "pipeline_of world0 0 = []
   \<and> where_calls 0 [[PList [PStr ''age'', PStr ''>'', PInt 18]],
                     [PStr ''name'', PStr ''=='', PStr ''Bob'']] world0
       = Inr (append_stage 0 (PDict [(PStr ''$match'', PDict [(PStr ''name'', PStr ''Bob'')])])
               (append_stage 0
                 (PDict [(PStr ''$match'', PDict [(PStr ''age'', PDict [(PStr ''$gt'', PInt 18)])])])
                 world0))
   \<and> length (pipeline_of
        (append_stage 0 (PDict [(PStr ''$match'', PDict [(PStr ''name'', PStr ''Bob'')])])
          (append_stage 0
            (PDict [(PStr ''$match'', PDict [(PStr ''age'', PDict [(PStr ''$gt'', PInt 18)])])])
            world0)) 0) = 2
   \<and> aggregate echo_driver 0 (append_stage 0 (PDict [(PStr ''$limit'', PInt 3)]) world0)
       = (Inr [PDict [(PStr ''$limit'', PInt 3)]],
          world0\<lparr>driver_calls := [Aggregate [PDict [(PStr ''$limit'', PInt 3)]]]\<rparr>)"
proof -
  let ?w = "append_stage 0 (PDict [(PStr ''$match'', PDict [(PStr ''name'', PStr ''Bob'')])])
          (append_stage 0
            (PDict [(PStr ''$match'', PDict [(PStr ''age'', PDict [(PStr ''$gt'', PInt 18)])])])
            world0)"
  let ?argss = "[[PList [PStr ''age'', PStr ''>'', PInt 18]],
                 [PStr ''name'', PStr ''=='', PStr ''Bob'']]"
  have p1: "parse (PList [PStr ''age'', PStr ''>'', PInt 18])
      = Inr (PDict [(PStr ''age'', PDict [(PStr ''$gt'', PInt 18)])])"
    using parse_binop [of "''>''" "PList [PStr ''age'', PStr ''>'', PInt 18]" "PStr ''age''" "PInt 18"]
    by (simp add: comparison_ops_def comparison_doc_def op_tag_def)
  have p2: "parse (PTuple [PStr ''name'', PStr ''=='', PStr ''Bob''])
      = Inr (PDict [(PStr ''name'', PStr ''Bob'')])"
    using parse_binop [of "''==''" "PTuple [PStr ''name'', PStr ''=='', PStr ''Bob'']"
        "PStr ''name''" "PStr ''Bob''"]
    by (simp add: comparison_ops_def comparison_doc_def op_tag_def)
  have e: "pipeline_of world0 0 = []" by (simp add: world0_def)
  have c: "where_calls 0 ?argss world0 = Inr ?w"
    by (simp add: where_coll_def where_arg_def p1 p2)
  have d: "echo_driver (pipeline_of world0 0) = Inr []"
    by (simp add: world0_def echo_driver_def)
  let ?v = "append_stage 0 (PDict [(PStr ''$limit'', PInt 3)]) world0"
  have l: "echo_driver (pipeline_of ?v 0) = Inr [PDict [(PStr ''$limit'', PInt 3)]]"
    by (simp add: append_stage_def world0_def echo_driver_def)
  have r: "snd (aggregate echo_driver 0 ?v)
      = world0\<lparr>driver_calls := [Aggregate [PDict [(PStr ''$limit'', PInt 3)]]]\<rparr>"
    by (simp add: aggregate_def reset_def append_stage_def world0_def echo_driver_def Let_def
        fun_eq_iff)
  show ?thesis
    using query_builder_execution [where drv = echo_driver and w = world0 and self = 0
        and docs = "[]" and argss = ?argss and w' = ?w]
      query_builder_execution [where drv = echo_driver and w = ?v and self = 0
        and docs = "[PDict [(PStr ''$limit'', PInt 3)]]"]
      d l e c r
    by (simp add: prod_eq_iff)
qed

text \<open>When the driver raises, the exception passes on and the pipeline keeps its stages.\<close>

lemma aggregate_driver_raises:
  "drv (pipeline_of w self) = Inl e \<Longrightarrow>
     fst (aggregate drv self w) = Inl e
     \<and> pipeline_of (snd (aggregate drv self w)) self = pipeline_of w self"
  by (simp add: aggregate_def Let_def)

lemma builders_return_self:
  "fst (where_coll self args w) = Inr r \<Longrightarrow> r = RHandle self"
  "fst (order_by self name order w) = Inr r \<Longrightarrow> r = RHandle self"
  "fst (limit_coll self num w) = Inr r \<Longrightarrow> r = RHandle self"
  by (auto simp: where_coll_def order_by_def limit_coll_def split: sum.splits)

text \<open>
  C9. In \<^verbatim>\<open>src/src/mongo.py\<close> the three accumulation methods return the handle they were
  called on (\<open>builders_return_self\<close>). In \<^verbatim>\<open>src/mongo.py\<close> only \<^verbatim>\<open>where\<close> does:
  \<^verbatim>\<open>order_by\<close> and \<^verbatim>\<open>limit\<close> have no \<^verbatim>\<open>return\<close> statement and return \<^verbatim>\<open>None\<close>, so a call
  chained after them fails. The code evaluated on a fresh handle.
\<close>

theorem order_by_top_returns_None:
  "fst (order_by_top 0 (PStr ''age'') (PInt 1) world0) = Inr RNone
   \<and> fst (limit_top 0 (PInt 3) world0) = Inr RNone
   \<and> fst (order_by 0 (PStr ''age'') (PInt 1) world0) = Inr (RHandle 0)
   \<and> fst (limit_coll 0 (PInt 3) world0) = Inr (RHandle 0)
   \<and> fst (where_coll 0 [PStr ''age'', PStr ''>'', PInt 18] world0) = Inr (RHandle 0)"
proof -
  have p: "parse (PTuple [PStr ''age'', PStr ''>'', PInt 18])
      = Inr (PDict [(PStr ''age'', PDict [(PStr ''$gt'', PInt 18)])])"
    using parse_binop [of "''>''" "PTuple [PStr ''age'', PStr ''>'', PInt 18]" "PStr ''age''" "PInt 18"]
    by (simp add: comparison_ops_def comparison_doc_def op_tag_def)
  show ?thesis
    by (simp add: order_by_top_def limit_top_def order_by_def limit_coll_def where_coll_def
        where_arg_def p)
qed

section \<open>Properties of the document reference\<close>

lemma dict_pop_absent [simp]: "map_of (dict_pop k d) (PStr k) = None"
  by (induction d) (auto simp: dict_pop_def)

lemma dict_pop_other: "k' \<noteq> PStr k \<Longrightarrow> map_of (dict_pop k d) k' = map_of d k'"
  by (induction d) (auto simp: dict_pop_def)

text \<open>
  C7. For every dictionary \<^verbatim>\<open>data\<close>, \<^verbatim>\<open>set\<close>, \<^verbatim>\<open>update\<close> and \<^verbatim>\<open>push\<close> make one driver call
  whose filter is \<^verbatim>\<open>{"_id": docId}\<close> with the reference's own key, and whose payload is
  \<^verbatim>\<open>data\<close> without its \<^verbatim>\<open>_id\<close> entry: the payload has no \<^verbatim>\<open>_id\<close> key, and every other key
  keeps its value.
\<close>

theorem reference_write_filter:
  "driver_calls (set_ref docId data w) = driver_calls w @
      [ReplaceOne (PDict [(PStr ''_id'', docId)]) (PDict (dict_pop ''_id'' (dict_at w data))) True]
   \<and> driver_calls (update_ref docId data w) = driver_calls w @
      [UpdateOne (PDict [(PStr ''_id'', docId)])
         (PDict [(PStr ''$set'', PDict (dict_pop ''_id'' (dict_at w data)))]) True]
   \<and> driver_calls (push_ref docId data w) = driver_calls w @
      [UpdateOne (PDict [(PStr ''_id'', docId)])
         (PDict [(PStr ''$push'', PDict (dict_pop ''_id'' (dict_at w data)))]) True]
   \<and> map_of (dict_pop ''_id'' (dict_at w data)) (PStr ''_id'') = None
   \<and> (k \<noteq> PStr ''_id'' \<longrightarrow>
        map_of (dict_pop ''_id'' (dict_at w data)) k = map_of (dict_at w data) k)"
  by (simp add: set_ref_def update_ref_def push_ref_def clean_def docId_filter_def dict_pop_other)

theorem reference_write_filter_witness:
  "driver_calls (set_ref (PInt 7) 5 world1)
     = [ReplaceOne (PDict [(PStr ''_id'', PInt 7)]) (PDict [(PStr ''age'', PInt 18)]) True]
   \<and> map_of (dict_at world1 5) (PStr ''_id'') = Some (PInt 99)
   \<and> PStr ''age'' \<noteq> PStr ''_id''
   \<and> map_of (dict_pop ''_id'' (dict_at world1 5)) (PStr ''age'') = Some (PInt 18)"
  using reference_write_filter [of "PInt 7" 5 world1 "PStr ''age''"]
  by (simp add: world1_def world0_def dict_pop_def)

text \<open>
  C10. \<^verbatim>\<open>set\<close>, \<^verbatim>\<open>update\<close> and \<^verbatim>\<open>push\<close> change the caller's dictionary object in place:
  after the call the object at the address the caller passed has lost its \<^verbatim>\<open>_id\<close> entry,
  and every other dictionary object is as it was.
\<close>

theorem reference_write_mutates_input:
  "dict_at (set_ref docId data w) data = dict_pop ''_id'' (dict_at w data)
   \<and> dict_at (update_ref docId data w) data = dict_pop ''_id'' (dict_at w data)
   \<and> dict_at (push_ref docId data w) data = dict_pop ''_id'' (dict_at w data)
   \<and> map_of (dict_at (set_ref docId data w) data) (PStr ''_id'') = None
   \<and> map_of (dict_at (update_ref docId data w) data) (PStr ''_id'') = None
   \<and> map_of (dict_at (push_ref docId data w) data) (PStr ''_id'') = None
   \<and> (a \<noteq> data \<longrightarrow> dict_at (set_ref docId data w) a = dict_at w a
         \<and> dict_at (update_ref docId data w) a = dict_at w a
         \<and> dict_at (push_ref docId data w) a = dict_at w a)"
  by (simp add: set_ref_def update_ref_def push_ref_def clean_def)

theorem reference_write_mutates_input_witness:
  "map_of (dict_at world1 5) (PStr ''_id'') = Some (PInt 99)
   \<and> dict_at (set_ref (PInt 7) 5 world1) 5 = [(PStr ''age'', PInt 18)]
   \<and> map_of (dict_at (set_ref (PInt 7) 5 world1) 5) (PStr ''_id'') = None
   \<and> (6::nat) \<noteq> 5
   \<and> dict_at (set_ref (PInt 7) 5 world1) 6 = dict_at world1 6"
  using reference_write_mutates_input [of "PInt 7" 5 world1 6]
  by (simp add: world1_def world0_def dict_pop_def)

end
